theory Spec2Isabelle
  imports Complex_Main "HOL-Library.Word"
begin

unbundle bit_operations_syntax

section \<open>Data model\<close>

text \<open>
  A Python \<open>str\<close> is a \<^typ>\<open>string\<close>: one \<^typ>\<open>char\<close> per code point, the code
  points 0 to 255 (the ones at 128 and above are the non-ASCII characters). A Python
  \<open>bytes\<close> object is a list of 8-bit words.
\<close>

type_synonym byte = "8 word"

text \<open>
  The exceptions the modelled code raises or meets. \<open>binascii.Error\<close> is the error of
  \<open>base64.b64decode\<close>, with its two causes; \<open>JSONDecodeError\<close> is the one exception the
  response handling catches; \<open>Raised\<close> stands for any other exception of a collaborator
  (the model client, the JSON parser), named by its class.
\<close>

datatype binascii_fault = InvalidLength | IncorrectPadding

datatype py_exception =
    ValueError string
  | BinasciiError binascii_fault
  | IndexError
  | JSONDecodeError
  | Raised string

section \<open>The standard library's base64 codec\<close>

text \<open>
  \<open>base64.b64encode\<close> and \<open>base64.b64decode\<close> are the functions of Python's standard
  library that the services call (\<open>b64decode\<close> with its default \<open>validate=False\<close>) and
  that the example client uses to build a payload. They are modelled after CPython's
  \<open>binascii\<close> module.
\<close>

definition table_b2a_base64 :: string where
  "table_b2a_base64 =
     ''ABCDEFGHIJKLMNOPQRSTUVWXYZabcdefghijklmnopqrstuvwxyz0123456789+/''"

definition BASE64_PAD :: char where
  "BASE64_PAD = CHR ''=''"

definition b2a :: "byte \<Rightarrow> char" where
  "b2a v = table_b2a_base64 ! unat v"

fun index_of :: "'a \<Rightarrow> 'a list \<Rightarrow> nat option" where
  "index_of x [] = None"
| "index_of x (y # ys) =
     (if x = y then Some 0 else map_option Suc (index_of x ys))"

text \<open>The decoding table: the 6-bit value of an alphabet character, nothing for any other.\<close>

definition table_a2b_base64 :: "char \<Rightarrow> byte option" where
  "table_a2b_base64 c = map_option of_nat (index_of c table_b2a_base64)"

text \<open>A byte that is a 6-bit value: an index into the encoding table.\<close>

definition sextet :: "byte \<Rightarrow> bool" where
  "sextet v = (take_bit 6 v = v)"

text \<open>
  \<open>binascii.b2a_base64(data, newline=False)\<close>: three bytes give four characters; a last
  group of one or two bytes is padded with \<open>=\<close>.
\<close>

fun b2a_base64 :: "byte list \<Rightarrow> string" where
  "b2a_base64 (x # y # z # rest) =
     b2a (drop_bit 2 x)
     # b2a (push_bit 4 (x AND 3) OR drop_bit 4 y)
     # b2a (push_bit 2 (y AND 15) OR drop_bit 6 z)
     # b2a (z AND 63)
     # b2a_base64 rest"
| "b2a_base64 [x, y] =
     [b2a (drop_bit 2 x), b2a (push_bit 4 (x AND 3) OR drop_bit 4 y),
      b2a (push_bit 2 (y AND 15)), BASE64_PAD]"
| "b2a_base64 [x] =
     [b2a (drop_bit 2 x), b2a (push_bit 4 (x AND 3)), BASE64_PAD, BASE64_PAD]"
| "b2a_base64 [] = []"

definition b64encode :: "byte list \<Rightarrow> string" where
  "b64encode s = b2a_base64 s"

text \<open>A decoded byte is produced only when the rest of the text decodes too.\<close>

definition emit :: "byte \<Rightarrow> py_exception + byte list \<Rightarrow> py_exception + byte list" where
  "emit b r = (case r of Inl e \<Rightarrow> Inl e | Inr bs \<Rightarrow> Inr (b # bs))"

text \<open>
  \<open>binascii.a2b_base64\<close> in its non-strict mode, as a scan of the text with the state of
  the C loop: \<open>quad_pos\<close> (the position in the current group of four), \<open>leftchar\<close> (the bits
  left over from the last character) and \<open>pads\<close> (the padding characters seen since the
  last alphabet character). A character outside the alphabet is skipped; padding that
  completes a group ends the scan, whatever follows; at the end of the text an
  incomplete group is an error.
\<close>

fun a2b_base64_loop :: "nat \<Rightarrow> byte \<Rightarrow> nat \<Rightarrow> string \<Rightarrow> py_exception + byte list" where
  "a2b_base64_loop quad_pos leftchar pads [] =
     (if quad_pos = 0 then Inr []
      else if quad_pos = 1 then Inl (BinasciiError InvalidLength)
      else Inl (BinasciiError IncorrectPadding))"
| "a2b_base64_loop quad_pos leftchar pads (this_ch # rest) =
     (if this_ch = BASE64_PAD then
        (if quad_pos \<ge> 2 \<and> quad_pos + (pads + 1) \<ge> 4 then Inr []
         else a2b_base64_loop quad_pos leftchar (if quad_pos \<ge> 2 then pads + 1 else pads) rest)
      else
        (case table_a2b_base64 this_ch of
           None \<Rightarrow> a2b_base64_loop quad_pos leftchar pads rest
         | Some v \<Rightarrow>
             (if quad_pos = 0 then a2b_base64_loop 1 v 0 rest
              else if quad_pos = 1 then
                emit (push_bit 2 leftchar OR drop_bit 4 v) (a2b_base64_loop 2 (v AND 15) 0 rest)
              else if quad_pos = 2 then
                emit (push_bit 4 leftchar OR drop_bit 2 v) (a2b_base64_loop 3 (v AND 3) 0 rest)
              else
                emit (push_bit 6 leftchar OR v) (a2b_base64_loop 0 0 0 rest))))"

definition a2b_base64 :: "string \<Rightarrow> py_exception + byte list" where
  "a2b_base64 s = a2b_base64_loop 0 0 0 s"

definition is_ascii :: "char \<Rightarrow> bool" where
  "is_ascii c = (of_char c < (128 :: nat))"

text \<open>
  \<open>base64.b64decode(s)\<close> on a \<open>str\<close>: the text is first encoded as ASCII, which raises
  \<open>ValueError\<close> on any other character, then handed to \<open>a2b_base64\<close>.
\<close>

definition b64decode :: "string \<Rightarrow> py_exception + byte list" where
  "b64decode s =
     (if list_all is_ascii s then a2b_base64 s
      else Inl (ValueError ''string argument should contain only ASCII characters''))"

text \<open>
  Following the specification's words: a text is valid encoded text when it is the
  encoded form of a byte sequence, which is then the one it decodes to.
\<close>

definition valid_encoded_text :: "string \<Rightarrow> bool" where
  "valid_encoded_text s = (case b64decode s of Inl e \<Rightarrow> False | Inr bs \<Rightarrow> b64encode bs = s)"

section \<open>Strings\<close>

text \<open>
  \<open>s.split(sep)\<close> for a one-character separator: the pieces between the separators, in
  order; a text without the separator is its only piece.
\<close>

fun split_on :: "char \<Rightarrow> string \<Rightarrow> string list" where
  "split_on sep [] = [[]]"
| "split_on sep (c # cs) =
     (if c = sep then [] # split_on sep cs
      else (case split_on sep cs of [] \<Rightarrow> [[c]] | piece # pieces \<Rightarrow> (c # piece) # pieces))"

text \<open>\<open>xs[i]\<close> for \<open>i \<ge> 0\<close>: an index past the end raises \<open>IndexError\<close>.\<close>

definition item :: "'a list \<Rightarrow> nat \<Rightarrow> py_exception + 'a" where
  "item xs i = (if i < length xs then Inr (xs ! i) else Inl IndexError)"

text \<open>\<open>bs.startswith(sig)\<close>.\<close>

definition startswith :: "'a list \<Rightarrow> 'a list \<Rightarrow> bool" where
  "startswith bs sig = (take (length sig) bs = sig)"

text \<open>The characters \<open>str.isspace\<close> holds of, among the code points below 256.\<close>

definition isspace :: "char \<Rightarrow> bool" where
  "isspace c =
     (let n = (of_char c :: nat)
      in (9 \<le> n \<and> n \<le> 13) \<or> (28 \<le> n \<and> n \<le> 32) \<or> n = 133 \<or> n = 160)"

text \<open>\<open>s.strip()\<close>: the text without its leading and trailing whitespace.\<close>

definition strip :: "string \<Rightarrow> string" where
  "strip s = rev (dropWhile isspace (rev (dropWhile isspace s)))"

text \<open>\<open>s.lower()\<close>, character by character, on the code points below 256.\<close>

definition lower_char :: "char \<Rightarrow> char" where
  "lower_char c =
     (let n = (of_char c :: nat)
      in if (65 \<le> n \<and> n \<le> 90) \<or> (192 \<le> n \<and> n \<le> 222 \<and> n \<noteq> 215)
         then char_of (n + 32) else c)"

definition lower :: "string \<Rightarrow> string" where
  "lower s = map lower_char s"

section \<open>Decoding the payload\<close>

text \<open>
  The three places that read a payload (\<open>process_image\<close>, \<open>detect_file_type\<close> and
  \<open>calculate_file_size\<close>) start with the same statements:
  \<^verbatim>\<open>
  if ',' in file_base64:
      file_base64 = file_base64.split(',')[1]
  file_bytes = base64.b64decode(file_base64)
  \<close>
  \<open>payload_segment\<close> is the text handed to the decoder, \<open>decode_payload\<close> the bytes it
  gives or the exception raised on the way.
\<close>

definition payload_segment :: "string \<Rightarrow> py_exception + string" where
  "payload_segment file_base64 =
     (if CHR '','' \<in> set file_base64 then item (split_on CHR '','' file_base64) 1
      else Inr file_base64)"

definition decode_payload :: "string \<Rightarrow> py_exception + byte list" where
  "decode_payload file_base64 =
     (case payload_segment file_base64 of
        Inl e \<Rightarrow> Inl e
      | Inr segment \<Rightarrow> b64decode segment)"

section \<open>FileInfoService\<close>

text \<open>
  \<open>detect_file_type\<close>: the magic numbers \<open>b'%PDF'\<close>, \<open>b'\x89PNG'\<close> and
  \<open>b'\xff\xd8\xff'\<close>, in this order; any exception gives \<open>"UNKNOWN"\<close>.
\<close>

definition detect_file_type :: "string \<Rightarrow> string" where
  "detect_file_type file_base64 =
     (case decode_payload file_base64 of
        Inl e \<Rightarrow> ''UNKNOWN''
      | Inr file_bytes \<Rightarrow>
          if startswith file_bytes [0x25, 0x50, 0x44, 0x46] then ''PDF''
          else if startswith file_bytes [0x89, 0x50, 0x4E, 0x47] then ''PNG''
          else if startswith file_bytes [0xFF, 0xD8, 0xFF] then ''JPEG''
          else ''UNKNOWN'')"

text \<open>
  \<open>round(x, ndigits)\<close> on a value that is exact in binary floating point, as
  \<open>size_bytes / 1024\<close> is: the nearest multiple of \<open>10 ^ -ndigits\<close>, a tie going to the
  even one. The result stands for the float nearest to it.
\<close>

definition round_half_even :: "rat \<Rightarrow> int" where
  "round_half_even x =
     (let f = \<lfloor>x\<rfloor>; d = x - of_int f
      in if d < 1 / 2 then f else if 1 / 2 < d then f + 1
         else if even f then f else f + 1)"

definition py_round :: "rat \<Rightarrow> nat \<Rightarrow> rat" where
  "py_round x ndigits = of_int (round_half_even (x * 10 ^ ndigits)) / 10 ^ ndigits"

text \<open>\<open>calculate_file_size\<close>: the size in kilobytes; any exception gives \<open>0.0\<close>.\<close>

definition calculate_file_size :: "string \<Rightarrow> rat" where
  "calculate_file_size file_base64 =
     (case decode_payload file_base64 of
        Inl e \<Rightarrow> 0
      | Inr file_bytes \<Rightarrow>
          (let size_bytes = length file_bytes;
               size_kb = of_nat size_bytes / 1024
           in py_round size_kb 2))"

text \<open>The dictionary \<open>get_file_info\<close> returns, one field per key.\<close>

record file_info =
  message :: string
  filename :: string
  file_type :: string
  file_size_kb :: rat

text \<open>
  \<open>get_file_info(file_base64, filename=None)\<close>. Neither \<open>detect_file_type\<close> nor
  \<open>calculate_file_size\<close> raises, so the handler that logs and re-raises is never
  entered; the calls of the injected logger are not modelled.
\<close>

definition get_file_info :: "string \<Rightarrow> string option \<Rightarrow> file_info" where
  "get_file_info file_base64 name =
     (let ftype = detect_file_type file_base64;
          size_kb = calculate_file_size file_base64;
          extension = (if ftype \<noteq> ''UNKNOWN'' then lower ftype else ''bin'');
          name' =
            (case name of
               None \<Rightarrow> ''archivo.'' @ extension
             | Some n \<Rightarrow> if n = [] then ''archivo.'' @ extension else n)
      in \<lparr>message = ''Archivo recibido correctamente'',
          filename = name',
          file_type = ftype,
          file_size_kb = size_kb\<rparr>)"

section \<open>GeminiService\<close>

text \<open>
  The values \<open>json.loads\<close> returns and \<open>process_image\<close> builds. A float is carried by its
  literal: nothing here computes with one.
\<close>

datatype pyval =
    PNone
  | PBool bool
  | PInt int
  | PFloat string
  | PStr string
  | PList "pyval list"
  | PDict "(string \<times> pyval) list"

text \<open>
  The request \<open>process_image\<close> hands to \<open>generate_content\<close>, and the part of the reply it
  reads: \<open>response_text\<close> is the reply's \<open>text\<close> attribute, \<open>None\<close> when the model
  produced no text.
\<close>

datatype part = Part_from_bytes "byte list" string | Part_from_text string

record generate_content_config =
  temperature :: rat
  response_mime_type :: string

record generate_content_call =
  model :: string
  contents :: "part list"
  config :: generate_content_config

record generate_content_response =
  response_text :: "string option"

text \<open>
  The response handling at the end of \<open>process_image\<close> (the statement
  \<open>if response and response.text: ... else: ...\<close>). \<open>json.loads\<close> is the standard
  library's parser, taken as the parameter \<open>json_loads\<close>: the parsed value, or the
  exception it raises. Only \<open>JSONDecodeError\<close> is caught here; any other exception
  reaches the outer handler, which logs it and raises it again.
\<close>

definition normalize_response ::
  "(string \<Rightarrow> py_exception + pyval) \<Rightarrow> generate_content_response option
     \<Rightarrow> py_exception + pyval" where
  "normalize_response json_loads response =
     (case response of
        None \<Rightarrow> Inr (PDict [(''error'', PStr ''No response from Gemini'')])
      | Some r \<Rightarrow>
          (case response_text r of
             None \<Rightarrow> Inr (PDict [(''error'', PStr ''No response from Gemini'')])
           | Some t \<Rightarrow>
               if t = [] then Inr (PDict [(''error'', PStr ''No response from Gemini'')])
               else
                 (let result_text = strip t
                  in case json_loads result_text of
                       Inr v \<Rightarrow> Inr v
                     | Inl e \<Rightarrow>
                         if e = JSONDecodeError
                         then Inr (PDict [(''raw_response'', PStr result_text)])
                         else Inl e)))"

text \<open>The fixed directive appended to the caller's prompt (an f-string over three lines).\<close>

definition full_prompt :: "string \<Rightarrow> string" where
  "full_prompt prompt =
     prompt @ [CHR 0x0A]
     @ replicate 16 CHR '' '' @ ''IMPORTANTE: Devuelve '' @ [CHR 0xDA]
     @ ''NICAMENTE un objeto JSON v'' @ [CHR 0xE1]
     @ ''lido con los campos solicitados. '' @ [CHR 0x0A]
     @ replicate 16 CHR '' '' @ ''No incluyas explicaciones adicionales, solo el JSON.''
     @ [CHR 0x0A]
     @ replicate 16 CHR '' ''"

text \<open>
  \<open>process_image(image_base64, prompt, mime_type)\<close>. The external model is the
  parameter \<open>generate_content\<close>: called with a request in a state \<open>w\<close> of the outside
  world, it returns the reply (or the exception it raises) and the state after the call.
  \<open>process_image\<close> returns its result, or the exception it raises, with the state it
  leaves the world in; the calls of the injected logger are not modelled.
\<close>

definition process_image ::
  "(generate_content_call \<Rightarrow> 'w \<Rightarrow> (py_exception + generate_content_response option) \<times> 'w)
     \<Rightarrow> (string \<Rightarrow> py_exception + pyval) \<Rightarrow> string
     \<Rightarrow> string \<Rightarrow> string \<Rightarrow> string \<Rightarrow> 'w \<Rightarrow> (py_exception + pyval) \<times> 'w" where
  "process_image generate_content json_loads model_name image_base64 prompt mime_type w =
     (let ftype = (if mime_type = ''application/pdf'' then ''PDF'' else ''imagen'')
      in case decode_payload image_base64 of
           Inl e \<Rightarrow> (Inl (ValueError (''Invalid base64 '' @ ftype @ '' data'')), w)
         | Inr file_bytes \<Rightarrow>
             (let call =
                    \<lparr>model = model_name,
                     contents =
                       [Part_from_bytes file_bytes mime_type,
                        Part_from_text (full_prompt prompt)],
                     config = \<lparr>temperature = 1 / 10, response_mime_type = ''application/json''\<rparr>\<rparr>
              in case generate_content call w of
                   (Inl e, w') \<Rightarrow> (Inl e, w')
                 | (Inr response, w') \<Rightarrow> (normalize_response json_loads response, w')))"

section \<open>The codec is a round trip\<close>

subsection \<open>Regrouping bits\<close>

text \<open>
  The encoder cuts three bytes into four 6-bit values and the decoder puts them together
  again. Two bytes are equal when their eight bits are.
\<close>

lemma and_3_take_bit: "(x::byte) AND 3 = take_bit 2 x"
  using take_bit_eq_mask [of 2 x] by (simp add: mask_eq_exp_minus_1)

lemma and_15_take_bit: "(x::byte) AND 15 = take_bit 4 x"
  using take_bit_eq_mask [of 4 x] by (simp add: mask_eq_exp_minus_1)

lemma and_63_take_bit: "(x::byte) AND 63 = take_bit 6 x"
  using take_bit_eq_mask [of 6 x] by (simp add: mask_eq_exp_minus_1)

lemma byte_eqI:
  fixes a b :: byte
  assumes "bit a 0 = bit b 0" "bit a 1 = bit b 1" "bit a 2 = bit b 2" "bit a 3 = bit b 3"
    "bit a 4 = bit b 4" "bit a 5 = bit b 5" "bit a 6 = bit b 6" "bit a 7 = bit b 7"
  shows "a = b"
proof (rule bit_word_eqI)
  fix n assume "n < LENGTH(8)"
  then have "n \<in> {7, 6, 5, 4, 3, 2, 1, 0}"
    by simp arith
  with assms show "bit a n = bit b n" by auto
qed

lemmas masks = and_3_take_bit and_15_take_bit and_63_take_bit

lemma regroup_first:
  "push_bit 2 (drop_bit 2 x) OR drop_bit 4 (push_bit 4 (x AND 3) OR drop_bit 4 y) = (x::byte)"
  unfolding masks by (rule byte_eqI) (simp_all add: bit_simps)

lemma regroup_second:
  "push_bit 4 ((push_bit 4 (x AND 3) OR drop_bit 4 y) AND 15)
     OR drop_bit 2 (push_bit 2 (y AND 15) OR drop_bit 6 z) = (y::byte)"
  unfolding masks by (rule byte_eqI) (simp_all add: bit_simps)

lemma regroup_third:
  "push_bit 6 ((push_bit 2 (y AND 15) OR drop_bit 6 z) AND 3) OR (z AND 63) = (z::byte)"
  unfolding masks by (rule byte_eqI) (simp_all add: bit_simps)

lemma regroup_first_last:
  "push_bit 2 (drop_bit 2 x) OR drop_bit 4 (push_bit 4 (x AND 3)) = (x::byte)"
  unfolding masks by (rule byte_eqI) (simp_all add: bit_simps)

lemma regroup_second_last:
  "push_bit 4 ((push_bit 4 (x AND 3) OR drop_bit 4 y) AND 15)
     OR drop_bit 2 (push_bit 2 (y AND 15)) = (y::byte)"
  unfolding masks by (rule byte_eqI) (simp_all add: bit_simps)

subsection \<open>The two tables\<close>

text \<open>Every value the encoder looks up is a 6-bit value, and the decoding table inverts
  the encoding table on those.\<close>

lemma sextet_unat: "sextet v \<Longrightarrow> unat v < 64"
proof -
  assume "sextet v"
  then have "unat v = take_bit 6 (unat v)"
    by (metis sextet_def unsigned_take_bit_eq)
  also have "\<dots> < 2 ^ 6" by (rule take_bit_nat_less_exp)
  finally show ?thesis by simp
qed

lemma not_bit_byte: "8 \<le> n \<Longrightarrow> bit (x::byte) n = False"
  by (auto dest: bit_imp_le_length)

lemma sextets:
  "sextet (drop_bit 2 x)"
  "sextet (push_bit 4 (x AND 3) OR drop_bit 4 y)"
  "sextet (push_bit 2 (y AND 15) OR drop_bit 6 z)"
  "sextet (z AND 63)"
  "sextet (push_bit 2 (y AND 15))"
  "sextet (push_bit 4 (x AND 3))"
  unfolding sextet_def masks by (rule byte_eqI; simp add: bit_simps not_bit_byte)+

lemma index_of_nth: "distinct xs \<Longrightarrow> n < length xs \<Longrightarrow> index_of (xs ! n) xs = Some n"
proof (induction xs arbitrary: n)
  case Nil then show ?case by simp
next
  case (Cons y ys)
  show ?case
  proof (cases n)
    case 0 then show ?thesis by simp
  next
    case (Suc m)
    with Cons.prems have "ys ! m \<noteq> y" "distinct ys" "m < length ys" by auto
    with Cons.IH [of m] Suc show ?thesis by simp
  qed
qed

lemma distinct_table: "distinct table_b2a_base64"
  unfolding table_b2a_base64_def by simp

lemma length_table: "length table_b2a_base64 = 64"
  unfolding table_b2a_base64_def by simp

lemma a2b_b2a: "sextet v \<Longrightarrow> table_a2b_base64 (b2a v) = Some v"
  using index_of_nth [OF distinct_table, of "unat v"] sextet_unat [of v]
  by (simp add: table_a2b_base64_def b2a_def length_table)

lemma pad_not_in_table: "BASE64_PAD \<notin> set table_b2a_base64"
  unfolding table_b2a_base64_def BASE64_PAD_def by simp

lemma b2a_in_table: "sextet v \<Longrightarrow> b2a v \<in> set table_b2a_base64"
  using sextet_unat [of v] by (simp add: b2a_def length_table)

lemma b2a_not_pad: "sextet v \<Longrightarrow> b2a v \<noteq> BASE64_PAD"
  using b2a_in_table pad_not_in_table by metis

subsection \<open>Decoding what was encoded\<close>

lemma loop_step:
  assumes "sextet v"
  shows "a2b_base64_loop 0 l p (b2a v # rest) = a2b_base64_loop 1 v 0 rest"
    and "a2b_base64_loop 1 l p (b2a v # rest) =
           emit (push_bit 2 l OR drop_bit 4 v) (a2b_base64_loop 2 (v AND 15) 0 rest)"
    and "a2b_base64_loop 2 l p (b2a v # rest) =
           emit (push_bit 4 l OR drop_bit 2 v) (a2b_base64_loop 3 (v AND 3) 0 rest)"
    and "a2b_base64_loop 3 l p (b2a v # rest) =
           emit (push_bit 6 l OR v) (a2b_base64_loop 0 0 0 rest)"
  using assms by (simp_all add: a2b_b2a b2a_not_pad)

lemma loop_pad:
  "a2b_base64_loop 2 l 0 (BASE64_PAD # BASE64_PAD # rest) = Inr []"
  "a2b_base64_loop 3 l 0 (BASE64_PAD # rest) = Inr []"
  by simp_all

lemma a2b_b2a_base64: "a2b_base64_loop 0 0 0 (b2a_base64 bs) = Inr bs"
proof (induction bs rule: b2a_base64.induct)
  case (1 x y z rest)
  define s1 where "s1 = drop_bit 2 x"
  define s2 where "s2 = push_bit 4 (x AND 3) OR drop_bit 4 y"
  define s3 where "s3 = push_bit 2 (y AND 15) OR drop_bit 6 z"
  define s4 where "s4 = z AND 63"
  have enc: "b2a_base64 (x # y # z # rest) = b2a s1 # b2a s2 # b2a s3 # b2a s4 # b2a_base64 rest"
    unfolding s1_def s2_def s3_def s4_def by (simp only: b2a_base64.simps)
  have six: "sextet s1" "sextet s2" "sextet s3" "sextet s4"
    unfolding s1_def s2_def s3_def s4_def by (rule sextets)+
  have bytes: "push_bit 2 s1 OR drop_bit 4 s2 = x"
    "push_bit 4 (s2 AND 15) OR drop_bit 2 s3 = y"
    "push_bit 6 (s3 AND 3) OR s4 = z"
    unfolding s1_def s2_def s3_def s4_def
    by (rule regroup_first regroup_second regroup_third)+
  show ?case
    unfolding enc using "1.IH"
    by (simp only: loop_step [OF six(1)] loop_step [OF six(2)] loop_step [OF six(3)]
        loop_step [OF six(4)] bytes emit_def sum.case)
next
  case (2 x y)
  define s1 where "s1 = drop_bit 2 x"
  define s2 where "s2 = push_bit 4 (x AND 3) OR drop_bit 4 y"
  define s3 where "s3 = push_bit 2 (y AND 15)"
  have enc: "b2a_base64 [x, y] = [b2a s1, b2a s2, b2a s3, BASE64_PAD]"
    unfolding s1_def s2_def s3_def by (simp only: b2a_base64.simps)
  have six: "sextet s1" "sextet s2" "sextet s3"
    unfolding s1_def s2_def s3_def by (rule sextets)+
  have bytes: "push_bit 2 s1 OR drop_bit 4 s2 = x"
    "push_bit 4 (s2 AND 15) OR drop_bit 2 s3 = y"
    unfolding s1_def s2_def s3_def
    by (rule regroup_first regroup_second_last)+
  show ?case
    unfolding enc
    by (simp only: loop_step [OF six(1)] loop_step [OF six(2)] loop_step [OF six(3)]
        loop_pad bytes emit_def sum.case)
next
  case (3 x)
  define s1 where "s1 = drop_bit 2 x"
  define s2 where "s2 = push_bit 4 (x AND 3)"
  have enc: "b2a_base64 [x] = [b2a s1, b2a s2, BASE64_PAD, BASE64_PAD]"
    unfolding s1_def s2_def by (simp only: b2a_base64.simps)
  have six: "sextet s1" "sextet s2"
    unfolding s1_def s2_def by (rule sextets)+
  have bytes: "push_bit 2 s1 OR drop_bit 4 s2 = x"
    unfolding s1_def s2_def by (rule regroup_first_last)
  show ?case
    unfolding enc
    by (simp only: loop_step [OF six(1)] loop_step [OF six(2)] loop_pad bytes emit_def sum.case)
next
  case 4
  show ?case by simp
qed

lemma set_b2a_base64: "set (b2a_base64 bs) \<subseteq> insert BASE64_PAD (set table_b2a_base64)"
proof (induction bs rule: b2a_base64.induct)
  case (1 x y z rest)
  then show ?case
    using b2a_in_table [OF sextets(1), of x] b2a_in_table [OF sextets(2), of x y]
      b2a_in_table [OF sextets(3), of y z] b2a_in_table [OF sextets(4), of z]
    by (simp only: b2a_base64.simps set_simps insert_subset) blast
next
  case (2 x y)
  show ?case
    using b2a_in_table [OF sextets(1), of x] b2a_in_table [OF sextets(2), of x y]
      b2a_in_table [OF sextets(5), of y]
    by (simp only: b2a_base64.simps set_simps insert_subset) blast
next
  case (3 x)
  show ?case
    using b2a_in_table [OF sextets(1), of x] b2a_in_table [OF sextets(6), of x]
    by (simp only: b2a_base64.simps set_simps insert_subset) blast
next
  case 4
  show ?case by simp
qed

lemma table_ascii: "list_all is_ascii (BASE64_PAD # table_b2a_base64)"
  unfolding table_b2a_base64_def BASE64_PAD_def is_ascii_def by simp

lemma comma_not_in_table: "CHR '','' \<notin> set (BASE64_PAD # table_b2a_base64)"
  unfolding table_b2a_base64_def BASE64_PAD_def by simp

lemma b64encode_ascii: "list_all is_ascii (b64encode bs)"
  using set_b2a_base64 [of bs] table_ascii
  by (auto simp: b64encode_def list_all_iff)

lemma b64encode_no_comma: "CHR '','' \<notin> set (b64encode bs)"
  using set_b2a_base64 [of bs] comma_not_in_table
  by (auto simp: b64encode_def)

lemma b64decode_b64encode: "b64decode (b64encode bs) = Inr bs"
  using b64encode_ascii [of bs]
  by (simp add: b64decode_def a2b_base64_def a2b_b2a_base64 b64encode_def)


subsection \<open>What the decoder rejects\<close>

text \<open>
  A text with a character outside ASCII is rejected. A text of ASCII characters without
  padding is accepted exactly when the number of its alphabet characters is a multiple
  of four; every other character is skipped.
\<close>

lemma emit_Inr_iff: "(\<exists>bs. emit b r = Inr bs) \<longleftrightarrow> (\<exists>bs. r = Inr bs)"
  by (cases r) (simp_all add: emit_def)

lemma loop_unpadded:
  "BASE64_PAD \<notin> set s \<Longrightarrow> q < 4 \<Longrightarrow>
     (\<exists>bs. a2b_base64_loop q l p s = Inr bs) \<longleftrightarrow>
       (q + length (filter (\<lambda>c. table_a2b_base64 c \<noteq> None) s)) mod 4 = 0"
proof (induction s arbitrary: q l p)
  case Nil
  then show ?case by simp
next
  case (Cons c s)
  from Cons.prems have c: "c \<noteq> BASE64_PAD" and s: "BASE64_PAD \<notin> set s" by auto
  show ?case
  proof (cases "table_a2b_base64 c")
    case None
    with c Cons.IH [OF s Cons.prems(2)] show ?thesis by simp
  next
    case (Some v)
    from Cons.prems(2) consider "q = 0" | "q = 1" | "q = 2" | "q = 3" by linarith
    then show ?thesis
    proof cases
      case 1
      with c Some Cons.IH [OF s, of 1 v 0] show ?thesis by simp
    next
      case 2
      with c Some Cons.IH [OF s, of 2 "v AND 15" 0] show ?thesis
        by (simp add: emit_Inr_iff)
    next
      case 3
      with c Some Cons.IH [OF s, of 3 "v AND 3" 0] show ?thesis
        by (simp add: emit_Inr_iff)
    next
      case 4
      with c Some Cons.IH [OF s, of 0 0 0] show ?thesis
        by (simp add: emit_Inr_iff)
    qed
  qed
qed

lemma b64decode_unpadded:
  assumes "list_all is_ascii s" "BASE64_PAD \<notin> set s"
  shows "(\<exists>bs. b64decode s = Inr bs) \<longleftrightarrow>
     length (filter (\<lambda>c. table_a2b_base64 c \<noteq> None) s) mod 4 = 0"
  using assms loop_unpadded [of s 0 0 0] by (simp add: b64decode_def a2b_base64_def)

lemma b64decode_non_ascii:
  "\<not> list_all is_ascii s \<Longrightarrow>
     b64decode s = Inl (ValueError ''string argument should contain only ASCII characters'')"
  by (simp add: b64decode_def)

subsection \<open>Valid encoded text\<close>

text \<open>
  The valid texts are the encoder's results. The decoder accepts every one of them, and
  more: a text it rejects is not valid, but a text that is not valid may be accepted.
\<close>

lemma valid_encoded_text_iff: "valid_encoded_text s \<longleftrightarrow> (\<exists>bs. s = b64encode bs)"
proof
  assume "valid_encoded_text s"
  then show "\<exists>bs. s = b64encode bs"
    by (auto simp: valid_encoded_text_def split: sum.splits)
next
  assume "\<exists>bs. s = b64encode bs"
  then show "valid_encoded_text s"
    by (auto simp: valid_encoded_text_def b64decode_b64encode)
qed

lemma rejected_not_valid: "b64decode s = Inl e \<Longrightarrow> \<not> valid_encoded_text s"
  by (simp add: valid_encoded_text_def)

section \<open>The text handed to the decoder\<close>

lemma split_on_no_sep: "sep \<notin> set s \<Longrightarrow> split_on sep s = [s]"
  by (induction s) auto

lemma split_on_first_sep:
  "sep \<notin> set p \<Longrightarrow> split_on sep (p @ sep # r) = p # split_on sep r"
  by (induction p) auto

lemma split_on_not_Nil: "split_on sep s \<noteq> []"
  by (induction s) (auto split: list.splits)

lemma split_on_hd:
  "hd (split_on sep r) = takeWhile (\<lambda>c. c \<noteq> sep) r"
  by (induction r) (auto simp: split_on_not_Nil split: list.splits)

lemma takeWhile_no_sep: "sep \<notin> set r \<Longrightarrow> takeWhile (\<lambda>c. c \<noteq> sep) r = r"
  by (induction r) auto

lemma payload_segment_no_comma:
  "CHR '','' \<notin> set s \<Longrightarrow> payload_segment s = Inr s"
  by (simp add: payload_segment_def)

lemma payload_segment_comma:
  assumes "CHR '','' \<notin> set p"
  shows "payload_segment (p @ CHR '','' # r) = Inr (takeWhile (\<lambda>c. c \<noteq> CHR '','') r)"
proof -
  obtain x xs where r: "split_on CHR '','' r = x # xs"
    using split_on_not_Nil [of "CHR '',''" r] by (cases "split_on CHR '','' r") auto
  then have "x = takeWhile (\<lambda>c. c \<noteq> CHR '','') r"
    using split_on_hd [of "CHR '',''" r] by simp
  with r assms show ?thesis
    by (simp add: payload_segment_def split_on_first_sep item_def)
qed

lemma decode_payload_no_comma:
  "CHR '','' \<notin> set s \<Longrightarrow> decode_payload s = b64decode s"
  by (simp add: decode_payload_def payload_segment_no_comma)

lemma decode_payload_comma:
  "CHR '','' \<notin> set p \<Longrightarrow>
     decode_payload (p @ CHR '','' # r) = b64decode (takeWhile (\<lambda>c. c \<noteq> CHR '','') r)"
  by (simp add: decode_payload_def payload_segment_comma)

section \<open>Transport decoding\<close>

text \<open>
  Claim C8. Decoding is a left inverse of encoding: for every byte sequence \<open>bs\<close>,
  \<open>decode_payload\<close> applied to \<open>b64encode bs\<close> gives \<open>bs\<close> back, and it still does when
  a metadata prefix (a text without the separator) and the separator \<open>,\<close> are put in
  front of the encoded form.
\<close>

theorem transport_decoder_left_inverse:
  "decode_payload (b64encode bs) = Inr bs \<and>
   (CHR '','' \<notin> set pre \<longrightarrow> decode_payload (pre @ CHR '','' # b64encode bs) = Inr bs)"
  using b64encode_no_comma [of bs]
  by (simp add: decode_payload_no_comma decode_payload_comma takeWhile_no_sep
      b64decode_b64encode)

lemma png_encoded: "b64encode [0x89, 0x50, 0x4E, 0x47] = ''iVBORw==''"
  by (simp add: b64encode_def b2a_def table_b2a_base64_def BASE64_PAD_def)

theorem transport_decoder_left_inverse_witness:
  "CHR '','' \<notin> set ''data:image/png;base64'' \<and>
   decode_payload ''iVBORw=='' = Inr [0x89, 0x50, 0x4E, 0x47] \<and>
   decode_payload ''data:image/png;base64,iVBORw=='' = Inr [0x89, 0x50, 0x4E, 0x47]"
  using transport_decoder_left_inverse [of "[0x89, 0x50, 0x4E, 0x47]" "''data:image/png;base64''"]
  by (simp add: png_encoded)

text \<open>
  Claim C6. The claim says that a payload with a comma is decoded from its first comma
  to its end. \<open>split(',')[1]\<close> is the piece between the first and the second comma, so a
  payload with two commas loses what follows the second: the payload
  \<open>data:text/plain;base64,QUJD,REVG\<close> decodes to the three bytes \<open>ABC\<close>, while everything
  after its first comma, \<open>QUJD,REVG\<close>, decodes to the six bytes \<open>ABCDEF\<close> (the decoder
  skips the comma).
\<close>

theorem decode_payload_second_comma:
  "decode_payload ''data:text/plain;base64,QUJD,REVG'' = Inr [0x41, 0x42, 0x43] \<and>
   b64decode ''QUJD,REVG'' = Inr [0x41, 0x42, 0x43, 0x44, 0x45, 0x46]"
  by code_simp


section \<open>File inspection\<close>

lemma pdf_encoded:
  "b64encode [0x25, 0x50, 0x44, 0x46, 0x2D, 0x31, 0x2E, 0x34] = ''JVBERi0xLjQ=''"
  by (simp add: b64encode_def b2a_def table_b2a_base64_def BASE64_PAD_def)

lemma decode_pdf_payload:
  "decode_payload ''JVBERi0xLjQ='' = Inr [0x25, 0x50, 0x44, 0x46, 0x2D, 0x31, 0x2E, 0x34]"
  using b64decode_b64encode [of "[0x25, 0x50, 0x44, 0x46, 0x2D, 0x31, 0x2E, 0x34]"]
  by (simp add: pdf_encoded decode_payload_no_comma)

lemma decode_single_character: "decode_payload ''A'' = Inl (BinasciiError InvalidLength)"
  by code_simp

text \<open>
  Claim C4. \<open>detect_file_type\<close> classifies the decoded bytes by their first bytes, in
  priority order: \<open>PDF\<close> when they begin with \<open>%PDF\<close>, else \<open>PNG\<close> when they begin with
  \<open>\x89PNG\<close>, else \<open>JPEG\<close> when they begin with \<open>\xFF\xD8\xFF\<close>, else \<open>UNKNOWN\<close>. This
  holds of whatever bytes the payload decodes to and, through the encoder, of every byte
  sequence, the empty one included; a payload that does not decode gives \<open>UNKNOWN\<close>. The
  function has a result on every input: it never raises.
\<close>

theorem detect_file_type_signatures:
  "(decode_payload s = Inr bs \<longrightarrow>
      detect_file_type s =
        (if startswith bs [0x25, 0x50, 0x44, 0x46] then ''PDF''
         else if startswith bs [0x89, 0x50, 0x4E, 0x47] then ''PNG''
         else if startswith bs [0xFF, 0xD8, 0xFF] then ''JPEG''
         else ''UNKNOWN''))
   \<and> (decode_payload s' = Inl e \<longrightarrow> detect_file_type s' = ''UNKNOWN'')
   \<and> detect_file_type (b64encode bs') =
        (if startswith bs' [0x25, 0x50, 0x44, 0x46] then ''PDF''
         else if startswith bs' [0x89, 0x50, 0x4E, 0x47] then ''PNG''
         else if startswith bs' [0xFF, 0xD8, 0xFF] then ''JPEG''
         else ''UNKNOWN'')
   \<and> detect_file_type (b64encode []) = ''UNKNOWN''"
proof -
  have "decode_payload (b64encode bs') = Inr bs'" "decode_payload (b64encode []) = Inr []"
    using b64encode_no_comma by (simp_all add: decode_payload_no_comma b64decode_b64encode)
  then show ?thesis
    by (simp add: detect_file_type_def startswith_def)
qed

theorem detect_file_type_signatures_witness:
  "decode_payload ''JVBERi0xLjQ='' = Inr [0x25, 0x50, 0x44, 0x46, 0x2D, 0x31, 0x2E, 0x34]
   \<and> detect_file_type ''JVBERi0xLjQ='' = ''PDF''
   \<and> decode_payload ''A'' = Inl (BinasciiError InvalidLength)
   \<and> detect_file_type ''A'' = ''UNKNOWN''"
  using detect_file_type_signatures
    [of "''JVBERi0xLjQ=''" "[0x25, 0x50, 0x44, 0x46, 0x2D, 0x31, 0x2E, 0x34]"
        "''A''" "BinasciiError InvalidLength"]
  by (simp add: decode_pdf_payload decode_single_character startswith_def)

text \<open>
  Claim C9. Whenever decoding the payload raises (a character outside ASCII, or alphabet
  characters that leave a group incomplete), \<open>calculate_file_size\<close> returns \<open>0.0\<close>
  instead of raising: the fallback is not special to the empty payload.
\<close>

theorem calculate_file_size_undecodable:
  "decode_payload s = Inl e \<Longrightarrow> calculate_file_size s = 0"
  by (simp add: calculate_file_size_def)

theorem calculate_file_size_undecodable_witness:
  "decode_payload ''A'' = Inl (BinasciiError InvalidLength) \<and> calculate_file_size ''A'' = 0"
  using calculate_file_size_undecodable [of "''A''" "BinasciiError InvalidLength"]
  by (simp add: decode_single_character)

text \<open>
  Claim C10. \<open>get_file_info\<close> treats the empty filename as an absent one: for every
  payload, the call with \<open>filename = ""\<close> returns the synthesized default filename
  (\<open>archivo.\<close> and the detected type in lower case, or \<open>archivo.bin\<close>), and all it
  returns is what the call without a filename returns.
\<close>

theorem get_file_info_empty_filename:
  "filename (get_file_info s (Some [])) =
     ''archivo.'' @ (if detect_file_type s = ''UNKNOWN'' then ''bin'' else lower (detect_file_type s))
   \<and> get_file_info s (Some []) = get_file_info s None"
  by (simp add: get_file_info_def Let_def)

lemma lower_PDF: "lower ''PDF'' = ''pdf''"
  by code_simp

lemma detect_file_type_pdf:
  "decode_payload s = Inr bs \<Longrightarrow> startswith bs [0x25, 0x50, 0x44, 0x46] \<Longrightarrow>
     detect_file_type s = ''PDF''"
  by (simp add: detect_file_type_def)

lemma filename_default:
  "filename (get_file_info s None) =
     ''archivo.'' @ (if detect_file_type s = ''UNKNOWN'' then ''bin'' else lower (detect_file_type s))"
  by (simp add: get_file_info_def Let_def)

lemma file_type_get_file_info: "file_type (get_file_info s name) = detect_file_type s"
  by (simp add: get_file_info_def Let_def)

text \<open>
  Claim C5, as stated, fails: the synthesized filename starts with \<open>archivo.\<close>, not with
  \<open>file.\<close>. For the payload \<open>JVBERi0xLjQ=\<close>, the encoded form of the bytes \<open>%PDF-1.4\<close>,
  and no filename, the file type is \<open>PDF\<close> and the filename is \<open>archivo.pdf\<close>.
\<close>

theorem default_filename_is_not_file_pdf:
  "b64encode [0x25, 0x50, 0x44, 0x46, 0x2D, 0x31, 0x2E, 0x34] = ''JVBERi0xLjQ=''
   \<and> file_type (get_file_info ''JVBERi0xLjQ='' None) = ''PDF''
   \<and> filename (get_file_info ''JVBERi0xLjQ='' None) = ''archivo.pdf''
   \<and> filename (get_file_info ''JVBERi0xLjQ='' None) \<noteq> ''file.pdf''"
  using detect_file_type_pdf [OF decode_pdf_payload]
  by (simp add: pdf_encoded filename_default file_type_get_file_info startswith_def lower_PDF)

text \<open>
  Claim C5, amended. When no filename is supplied, the returned filename is
  \<open>archivo.\<close> followed by the detected type in lower case, and \<open>archivo.bin\<close> when the
  detected type is \<open>UNKNOWN\<close>; for a payload whose bytes begin with \<open>%PDF\<close> the file type
  is \<open>PDF\<close> and the filename is \<open>archivo.pdf\<close>.
\<close>

theorem get_file_info_default_filename:
  "filename (get_file_info s None) =
     ''archivo.'' @ (if detect_file_type s = ''UNKNOWN'' then ''bin'' else lower (detect_file_type s))
   \<and> (decode_payload s = Inr bs \<and> startswith bs [0x25, 0x50, 0x44, 0x46] \<longrightarrow>
        file_type (get_file_info s None) = ''PDF'' \<and>
        filename (get_file_info s None) = ''archivo.pdf'')"
  using detect_file_type_pdf [of s bs]
  by (auto simp: filename_default file_type_get_file_info lower_PDF)

theorem get_file_info_default_filename_witness:
  "decode_payload ''JVBERi0xLjQ='' = Inr [0x25, 0x50, 0x44, 0x46, 0x2D, 0x31, 0x2E, 0x34]
   \<and> startswith [0x25, 0x50, 0x44, 0x46, 0x2D, 0x31, 0x2E, 0x34 :: byte] [0x25, 0x50, 0x44, 0x46]
   \<and> file_type (get_file_info ''JVBERi0xLjQ='' None) = ''PDF''
   \<and> filename (get_file_info ''JVBERi0xLjQ='' None) = ''archivo.pdf''"
proof -
  let ?bs = "[0x25, 0x50, 0x44, 0x46, 0x2D, 0x31, 0x2E, 0x34] :: byte list"
  have sig: "startswith ?bs [0x25, 0x50, 0x44, 0x46]"
    by (simp add: startswith_def)
  from get_file_info_default_filename [of "''JVBERi0xLjQ=''" ?bs] decode_pdf_payload sig
  have "file_type (get_file_info ''JVBERi0xLjQ='' None) = ''PDF'' \<and>
        filename (get_file_info ''JVBERi0xLjQ='' None) = ''archivo.pdf''"
    by blast
  with decode_pdf_payload sig show ?thesis by blast
qed

section \<open>Image processing\<close>

text \<open>Once the payload decodes, the model is called once, with the decoded bytes.\<close>

lemma process_image_calls_model:
  "decode_payload image_base64 = Inr file_bytes \<Longrightarrow>
     snd (process_image generate_content json_loads model_name image_base64 prompt mime_type w) =
       snd (generate_content
         \<lparr>model = model_name,
          contents = [Part_from_bytes file_bytes mime_type, Part_from_text (full_prompt prompt)],
          config = \<lparr>temperature = 1 / 10, response_mime_type = ''application/json''\<rparr>\<rparr> w)"
  by (simp add: process_image_def Let_def split: prod.splits sum.splits)

text \<open>
  A payload whose decoding raises makes \<open>process_image\<close> raise
  \<open>ValueError("Invalid base64 ... data")\<close> before the model is called: whatever
  \<open>generate_content\<close> would do to the outside world, the world is left as it was.
\<close>

lemma process_image_decode_failure:
  "decode_payload image_base64 = Inl e \<Longrightarrow>
     process_image generate_content json_loads model_name image_base64 prompt mime_type w =
       (Inl (ValueError
          (''Invalid base64 '' @ (if mime_type = ''application/pdf'' then ''PDF'' else ''imagen'')
             @ '' data'')), w)"
  by (simp add: process_image_def)

lemma decode_skipped_characters: "decode_payload ''@@@@'' = Inr []"
  by code_simp

lemma skipped_characters_not_valid: "\<not> valid_encoded_text ''@@@@''"
  by code_simp

lemma decode_hello: "decode_payload ''hello wor'' = Inr [0x85, 0xE9, 0x65, 0xA3, 0x0A, 0x2B]"
  by code_simp

lemma hello_not_valid: "\<not> valid_encoded_text ''hello wor''"
  by code_simp

lemma b64decode_single_character: "b64decode ''A'' = Inl (BinasciiError InvalidLength)"
  by code_simp

text \<open>
  Claim C7, as stated, fails. \<open>base64.b64decode\<close> is called without validation and skips
  every character outside the alphabet, so a text that is not valid encoded text can
  decode without an error. The payloads \<open>@@@@\<close> and \<open>hello wor\<close> are the encoded form
  of no byte sequence; \<open>process_image\<close> decodes them (to no bytes and to six bytes),
  calls the model once and returns a result. The model here counts its calls and
  returns no response.
\<close>

theorem invalid_text_reaches_model:
  "\<not> valid_encoded_text ''@@@@'' \<and>
   process_image (\<lambda>call n. (Inr None, Suc n)) (\<lambda>s. Inl JSONDecodeError) ''gemini''
       ''@@@@'' ''Extrae los campos'' ''image/jpeg'' (0 :: nat) =
     (Inr (PDict [(''error'', PStr ''No response from Gemini'')]), Suc 0) \<and>
   \<not> valid_encoded_text ''hello wor'' \<and>
   process_image (\<lambda>call n. (Inr None, Suc n)) (\<lambda>s. Inl JSONDecodeError) ''gemini''
       ''hello wor'' ''Extrae los campos'' ''image/jpeg'' (0 :: nat) =
     (Inr (PDict [(''error'', PStr ''No response from Gemini'')]), Suc 0)"
  by (simp add: skipped_characters_not_valid hello_not_valid process_image_def
      decode_skipped_characters decode_hello normalize_response_def)

text \<open>
  Claim C7, amended. For every payload with at most one comma whose decodable segment
  (the whole payload, or what follows the comma) the decoder rejects, \<open>process_image\<close>
  fails with the invalid-encoding error, which the code raises as
  \<open>ValueError("Invalid base64 ... data")\<close>, and the model is not called: the outside
  world is left as it was. The decoder rejects a segment with a character outside ASCII,
  and a segment whose alphabet characters leave a group of four incomplete.
\<close>

theorem process_image_rejected_payload:
  "(CHR '','' \<notin> set s \<and> b64decode s = Inl e \<longrightarrow>
      process_image generate_content json_loads model_name s prompt mime_type w =
        (Inl (ValueError
           (''Invalid base64 '' @ (if mime_type = ''application/pdf'' then ''PDF'' else ''imagen'')
              @ '' data'')), w))
   \<and> (CHR '','' \<notin> set pre \<and> CHR '','' \<notin> set r \<and> b64decode r = Inl e' \<longrightarrow>
      process_image generate_content json_loads model_name (pre @ CHR '','' # r) prompt mime_type w =
        (Inl (ValueError
           (''Invalid base64 '' @ (if mime_type = ''application/pdf'' then ''PDF'' else ''imagen'')
              @ '' data'')), w))"
proof (intro conjI impI)
  assume "CHR '','' \<notin> set s \<and> b64decode s = Inl e"
  then have "decode_payload s = Inl e"
    by (simp add: decode_payload_no_comma)
  then show "process_image generate_content json_loads model_name s prompt mime_type w =
        (Inl (ValueError
           (''Invalid base64 '' @ (if mime_type = ''application/pdf'' then ''PDF'' else ''imagen'')
              @ '' data'')), w)"
    by (rule process_image_decode_failure)
next
  assume "CHR '','' \<notin> set pre \<and> CHR '','' \<notin> set r \<and> b64decode r = Inl e'"
  then have "decode_payload (pre @ CHR '','' # r) = Inl e'"
    by (simp add: decode_payload_comma takeWhile_no_sep)
  then show "process_image generate_content json_loads model_name (pre @ CHR '','' # r) prompt
        mime_type w =
        (Inl (ValueError
           (''Invalid base64 '' @ (if mime_type = ''application/pdf'' then ''PDF'' else ''imagen'')
              @ '' data'')), w)"
    by (rule process_image_decode_failure)
qed

text \<open>The witness counts the calls of the model: none is made.\<close>

theorem process_image_rejected_payload_witness:
  "CHR '','' \<notin> set ''A'' \<and> b64decode ''A'' = Inl (BinasciiError InvalidLength) \<and>
   process_image (\<lambda>call n. (Inr None, Suc n)) (\<lambda>s. Inl JSONDecodeError) ''gemini''
       ''A'' ''Extrae los campos'' ''image/jpeg'' (0 :: nat) =
     (Inl (ValueError ''Invalid base64 imagen data''), 0) \<and>
   CHR '','' \<notin> set ''data:application/pdf;base64'' \<and>
   process_image (\<lambda>call n. (Inr None, Suc n)) (\<lambda>s. Inl JSONDecodeError) ''gemini''
       ''data:application/pdf;base64,A'' ''Extrae los campos'' ''application/pdf'' (0 :: nat) =
     (Inl (ValueError ''Invalid base64 PDF data''), 0)"
  using process_image_rejected_payload [of "''A''" "BinasciiError InvalidLength"
      "\<lambda>call n. (Inr None, Suc n)" "\<lambda>s. Inl JSONDecodeError" "''gemini''"
      "''Extrae los campos''" "''image/jpeg''" "0 :: nat"]
    process_image_rejected_payload [of _ _
      "\<lambda>call n. (Inr None, Suc n)" "\<lambda>s. Inl JSONDecodeError" "''gemini''"
      "''Extrae los campos''" "''application/pdf''" "0 :: nat"
      "''data:application/pdf;base64''" "''A''" "BinasciiError InvalidLength"]
  by (simp add: b64decode_single_character)

section \<open>Response handling\<close>

lemma strip_42: "strip ''42'' = ''42''"
  by code_simp

lemma strip_lo_siento:
  "strip ''Lo siento, no puedo procesar esto'' = ''Lo siento, no puedo procesar esto''"
  by code_simp

lemma strip_padded: "strip '' no es JSON '' = ''no es JSON''"
  by code_simp

lemma dropWhile_hd: "s \<noteq> [] \<Longrightarrow> \<not> P (hd s) \<Longrightarrow> dropWhile P s = s"
  by (cases s) auto

lemma strip_unpadded:
  assumes "s \<noteq> []" "\<not> isspace (hd s)" "\<not> isspace (last s)"
  shows "strip s = s"
proof -
  have "dropWhile isspace (rev s) = rev s"
    using assms by (intro dropWhile_hd) (simp_all add: hd_rev)
  with assms show ?thesis
    by (simp add: strip_def dropWhile_hd)
qed

lemma bracket_not_space: "\<not> isspace CHR ''[''"
  by (simp add: isspace_def)

lemma strip_deep: "strip (replicate 100000 CHR ''['') = replicate 100000 CHR ''[''"
  by (rule strip_unpadded) (simp_all add: bracket_not_space)

lemma deep_not_42: "replicate 100000 CHR ''['' \<noteq> ''42''"
proof
  assume "replicate 100000 CHR ''['' = ''42''"
  then have "length (replicate 100000 CHR ''['') = length ''42''" by (rule arg_cong)
  then show False by simp
qed

text \<open>
  Claim C1. The claim says that the response handling returns one of three mappings and
  never raises. The code returns whatever \<open>json.loads\<close> parsed, so a reply that is valid
  JSON but not an object (\<open>42\<close>, a list, a string, \<open>null\<close>) comes back as that value and
  not as a mapping; and an exception of the parser other than \<open>JSONDecodeError\<close> (a
  \<open>RecursionError\<close> on deeply nested text) is raised again.
\<close>

theorem normalize_response_parsed_value:
  "t \<noteq> [] \<Longrightarrow>
     (json_loads (strip t) = Inr v \<longrightarrow>
        normalize_response json_loads (Some \<lparr>response_text = Some t\<rparr>) = Inr v)
     \<and> (json_loads (strip t) = Inl e \<and> e \<noteq> JSONDecodeError \<longrightarrow>
        normalize_response json_loads (Some \<lparr>response_text = Some t\<rparr>) = Inl e)"
  by (simp add: normalize_response_def)

text \<open>
  The witness takes a parser that agrees with \<open>json.loads\<close> on two replies: \<open>42\<close>, parsed
  as the integer, and a hundred thousand opening brackets, on which it raises
  \<open>RecursionError\<close>.
\<close>

theorem normalize_response_parsed_value_witness:
  "''42'' \<noteq> [] \<and> replicate 100000 CHR ''['' \<noteq> [] \<and>
   normalize_response
     (\<lambda>s. if s = ''42'' then Inr (PInt 42)
          else if s = replicate 100000 CHR ''['' then Inl (Raised ''RecursionError'')
          else Inl JSONDecodeError)
     (Some \<lparr>response_text = Some ''42''\<rparr>) = Inr (PInt 42) \<and>
   normalize_response
     (\<lambda>s. if s = ''42'' then Inr (PInt 42)
          else if s = replicate 100000 CHR ''['' then Inl (Raised ''RecursionError'')
          else Inl JSONDecodeError)
     (Some \<lparr>response_text = Some (replicate 100000 CHR ''['')\<rparr>) = Inl (Raised ''RecursionError'')"
proof -
  let ?loads = "\<lambda>s. if s = ''42'' then Inr (PInt 42)
          else if s = replicate 100000 CHR ''['' then Inl (Raised ''RecursionError'')
          else Inl JSONDecodeError"
  have ne: "replicate 100000 CHR ''['' \<noteq> []" by simp
  have a: "normalize_response ?loads (Some \<lparr>response_text = Some ''42''\<rparr>) = Inr (PInt 42)"
    using normalize_response_parsed_value [of "''42''" ?loads "PInt 42"]
    by (simp add: strip_42)
  have b: "normalize_response ?loads (Some \<lparr>response_text = Some (replicate 100000 CHR ''['')\<rparr>)
      = Inl (Raised ''RecursionError'')"
    using normalize_response_parsed_value
      [OF ne, of ?loads _ "Raised ''RecursionError''"] deep_not_42
    by (simp only: strip_deep if_False if_True py_exception.distinct simp_thms)
  from a b ne show ?thesis by simp
qed

text \<open>
  Claim C2, as stated, fails. For the reply \<open>Lo siento, no puedo procesar esto\<close>, which
  the parser rejects, the result is not the mapping with the key \<open>rawResponse\<close>; for a
  rejected reply with blanks around it, the text kept is not the original one; and the
  empty reply, rejected too, gets no fallback mapping.
\<close>

theorem fallback_key_is_not_rawResponse:
  "\<not> (\<forall>json_loads.
        json_loads ''Lo siento, no puedo procesar esto'' = Inl JSONDecodeError \<longrightarrow>
        normalize_response json_loads
            (Some \<lparr>response_text = Some ''Lo siento, no puedo procesar esto''\<rparr>) =
          Inr (PDict [(''rawResponse'', PStr ''Lo siento, no puedo procesar esto'')]))
   \<and> \<not> (\<forall>json_loads.
        json_loads '' no es JSON '' = Inl JSONDecodeError \<and>
        json_loads ''no es JSON'' = Inl JSONDecodeError \<longrightarrow>
        normalize_response json_loads (Some \<lparr>response_text = Some '' no es JSON ''\<rparr>) =
          Inr (PDict [(''raw_response'', PStr '' no es JSON '')]))
   \<and> \<not> (\<forall>json_loads.
        json_loads [] = Inl JSONDecodeError \<longrightarrow>
        normalize_response json_loads (Some \<lparr>response_text = Some []\<rparr>) =
          Inr (PDict [(''raw_response'', PStr [])]))"
proof (intro conjI notI)
  assume "\<forall>json_loads.
        json_loads ''Lo siento, no puedo procesar esto'' = Inl JSONDecodeError \<longrightarrow>
        normalize_response json_loads
            (Some \<lparr>response_text = Some ''Lo siento, no puedo procesar esto''\<rparr>) =
          Inr (PDict [(''rawResponse'', PStr ''Lo siento, no puedo procesar esto'')])"
  from this [rule_format, of "\<lambda>s. Inl JSONDecodeError"]
  show False by (simp add: normalize_response_def strip_lo_siento)
next
  assume "\<forall>json_loads.
        json_loads '' no es JSON '' = Inl JSONDecodeError \<and>
        json_loads ''no es JSON'' = Inl JSONDecodeError \<longrightarrow>
        normalize_response json_loads (Some \<lparr>response_text = Some '' no es JSON ''\<rparr>) =
          Inr (PDict [(''raw_response'', PStr '' no es JSON '')])"
  from this [rule_format, of "\<lambda>s. Inl JSONDecodeError"]
  show False by (simp add: normalize_response_def strip_padded)
next
  assume "\<forall>json_loads.
        json_loads [] = Inl JSONDecodeError \<longrightarrow>
        normalize_response json_loads (Some \<lparr>response_text = Some []\<rparr>) =
          Inr (PDict [(''raw_response'', PStr [])])"
  from this [rule_format, of "\<lambda>s. Inl JSONDecodeError"]
  show False by (simp add: normalize_response_def)
qed

text \<open>
  Claim C2, amended. For every non-empty reply whose text, stripped of the whitespace
  around it, the parser rejects with \<open>JSONDecodeError\<close>, the result is the mapping whose
  single entry maps the key \<open>raw_response\<close> to the stripped text; for the reply
  \<open>Lo siento, no puedo procesar esto\<close> it is
  \<open>{"raw_response": "Lo siento, no puedo procesar esto"}\<close>.
\<close>

theorem normalize_response_fallback:
  "(t \<noteq> [] \<and> json_loads (strip t) = Inl JSONDecodeError \<longrightarrow>
      normalize_response json_loads (Some \<lparr>response_text = Some t\<rparr>) =
        Inr (PDict [(''raw_response'', PStr (strip t))]))
   \<and> (json_loads ''Lo siento, no puedo procesar esto'' = Inl JSONDecodeError \<longrightarrow>
      normalize_response json_loads
          (Some \<lparr>response_text = Some ''Lo siento, no puedo procesar esto''\<rparr>) =
        Inr (PDict [(''raw_response'', PStr ''Lo siento, no puedo procesar esto'')]))"
  by (simp add: normalize_response_def strip_lo_siento)

theorem normalize_response_fallback_witness:
  "'' no es JSON '' \<noteq> [] \<and>
   normalize_response (\<lambda>s. Inl JSONDecodeError) (Some \<lparr>response_text = Some '' no es JSON ''\<rparr>) =
     Inr (PDict [(''raw_response'', PStr ''no es JSON'')]) \<and>
   normalize_response (\<lambda>s. Inl JSONDecodeError)
       (Some \<lparr>response_text = Some ''Lo siento, no puedo procesar esto''\<rparr>) =
     Inr (PDict [(''raw_response'', PStr ''Lo siento, no puedo procesar esto'')])"
  using normalize_response_fallback [of "'' no es JSON ''" "\<lambda>s. Inl JSONDecodeError"]
  by (simp add: strip_padded)

text \<open>
  Claim C3, as stated, fails: when the model returns no text, the message of the result
  is \<open>No response from Gemini\<close>, not \<open>No response from model\<close>.
\<close>

theorem no_response_marker_is_not_model:
  "\<not> (\<forall>json_loads response.
        response = None \<or> response = Some \<lparr>response_text = None\<rparr> \<longrightarrow>
        normalize_response json_loads response =
          Inr (PDict [(''error'', PStr ''No response from model'')]))"
proof
  assume "\<forall>json_loads response.
        response = None \<or> response = Some \<lparr>response_text = None\<rparr> \<longrightarrow>
        normalize_response json_loads response =
          Inr (PDict [(''error'', PStr ''No response from model'')])"
  from this [rule_format, of None "\<lambda>s. Inl JSONDecodeError"]
  show False by (simp add: normalize_response_def)
qed

text \<open>
  Claim C3, amended. Whenever the model returns no text at all (no reply, a reply
  without text, or an empty text), the result is the mapping
  \<open>{"error": "No response from Gemini"}\<close>.
\<close>

theorem normalize_response_no_text:
  "normalize_response json_loads None = Inr (PDict [(''error'', PStr ''No response from Gemini'')])
   \<and> normalize_response json_loads (Some \<lparr>response_text = None\<rparr>) =
       Inr (PDict [(''error'', PStr ''No response from Gemini'')])
   \<and> normalize_response json_loads (Some \<lparr>response_text = Some []\<rparr>) =
       Inr (PDict [(''error'', PStr ''No response from Gemini'')])"
  by (simp add: normalize_response_def)

end
